theory Spec2Isabelle
  imports Complex_Main
begin

section \<open>The TUM RGB-D reader (\<open>mrhash/apps/utils/tum_reader.py\<close>)\<close>

text \<open>
  The reader parses three timestamped list files, associates every colour record with
  its nearest depth and pose record, and serves the associated frames by index and by
  iteration. Python exceptions are values of \<open>error\<close>; a function that may raise
  returns \<open>error + 'a\<close> with \<open>Inl\<close> for the exception.

  Python floats (timestamps, ranges, the depth divisor) are idealised as rationals:
  rounding of binary64 arithmetic, infinities and NaN are outside the model. The
  32-bit float arrays of NumPy stay abstract (type \<open>'f\<close>): the conversion to
  \<open>float32\<close> and the array division are parameters of the environment.
\<close>

datatype error = FileNotFoundError | ValueError | IndexError | StopIteration

text \<open>A \<open>pathlib\<close> path: a directory given by the caller, or \<open>parent / name\<close>.\<close>

datatype path = Dir string | Slash path string

text \<open>
  A decoded image file: \<open>raster\<close> is what \<open>np.array(img)\<close> holds for a
  single-channel image, \<open>rgb_raster\<close> what \<open>np.array(img.convert("RGB"))\<close> holds.
\<close>

record image =
  raster :: "nat list list"
  rgb_raster :: "(nat \<times> nat \<times> nat) list list"

text \<open>
  The environment of a reader: the text files on storage (as their lines), the image
  files, and the library functions the code calls: Python's \<open>float\<close> on a string
  (\<open>None\<close> where it raises \<open>ValueError\<close>), NumPy's conversion to \<open>float32\<close> and
  its division of a \<open>float32\<close> value by a Python float.
\<close>

record 'f env =
  files :: "path \<rightharpoonup> string list"
  images :: "path \<rightharpoonup> image"
  pyfloat :: "string \<Rightarrow> rat option"
  float32 :: "rat \<Rightarrow> 'f"
  true_divide :: "'f \<Rightarrow> rat \<Rightarrow> 'f"

subsection \<open>Reading a list file\<close>

text \<open>\<open>str.isspace\<close> on the characters below 256.\<close>

definition isspace :: "char \<Rightarrow> bool" where
  "isspace c = ((of_char c :: nat) \<in> {9, 10, 11, 12, 13, 28, 29, 30, 31, 32, 133, 160})"

text \<open>\<open>str.split()\<close> without arguments: the maximal runs of non-space characters.\<close>

fun split_acc :: "string \<Rightarrow> string \<Rightarrow> string list" where
  "split_acc cur [] = (if cur = [] then [] else [cur])"
| "split_acc cur (c # cs) =
     (if isspace c then (if cur = [] then split_acc [] cs else cur # split_acc [] cs)
      else split_acc (cur @ [c]) cs)"

definition str_split :: "string \<Rightarrow> string list" where
  "str_split s = split_acc [] s"

definition startswith_hash :: "string \<Rightarrow> bool" where
  "startswith_hash line = (case line of [] \<Rightarrow> False | c # _ \<Rightarrow> c = CHR ''#'')"

text \<open>
  The loop of \<open>read_file_list\<close>: a comment line is skipped; otherwise \<open>parts[0]\<close>
  raises \<open>IndexError\<close> on a line without tokens and \<open>float\<close> raises
  \<open>ValueError\<close> on a first token that is not a number.
\<close>

fun read_lines :: "(string \<Rightarrow> rat option) \<Rightarrow> string list \<Rightarrow> error + (rat \<times> string list) list" where
  "read_lines pf [] = Inr []"
| "read_lines pf (line # rest) =
     (if startswith_hash line then read_lines pf rest
      else (case str_split line of
              [] \<Rightarrow> Inl IndexError
            | t # ts \<Rightarrow>
                (case pf t of
                   None \<Rightarrow> Inl ValueError
                 | Some v \<Rightarrow>
                     (case read_lines pf rest of
                        Inl e \<Rightarrow> Inl e
                      | Inr file_list \<Rightarrow> Inr ((v, ts) # file_list)))))"

definition read_file_list :: "'f env \<Rightarrow> path \<Rightarrow> error + (rat \<times> string list) list" where
  "read_file_list env filename =
     (case files env filename of
        None \<Rightarrow> Inl FileNotFoundError
      | Some lines \<Rightarrow> read_lines (pyfloat env) lines)"

subsection \<open>Association by nearest timestamp\<close>

text \<open>
  \<open>np.argmin\<close>: the index of the first occurrence of the minimum; it raises
  \<open>ValueError\<close> on an empty array.
\<close>

fun argmin_scan :: "rat list \<Rightarrow> nat \<Rightarrow> rat \<Rightarrow> nat \<Rightarrow> nat" where
  "argmin_scan [] i best best_i = best_i"
| "argmin_scan (x # xs) i best best_i =
     (if x < best then argmin_scan xs (Suc i) x i else argmin_scan xs (Suc i) best best_i)"

definition argmin :: "rat list \<Rightarrow> error + nat" where
  "argmin xs = (case xs of [] \<Rightarrow> Inl ValueError | x # rest \<Rightarrow> Inr (argmin_scan rest 1 x 0))"

record match =
  rgb :: string
  depth :: string
  pose :: "string list"

text \<open>
  The association loop of \<open>load_tum_data\<close> over the colour list. A colour record
  whose nearest depth record is further than 0.02 away is skipped before the pose list
  is looked at. The subscripts \<open>rgb_data[0]\<close> and \<open>depth_list[d_idx][1][0]\<close> raise
  \<open>IndexError\<close> on a record without a path token.
\<close>

fun associate :: "(rat \<times> string list) list \<Rightarrow> (rat \<times> string list) list \<Rightarrow>
    (rat \<times> string list) list \<Rightarrow> error + match list" where
  "associate depth_list pose_list [] = Inr []"
| "associate depth_list pose_list ((rgb_ts, rgb_data) # rest) =
     (case argmin (map (\<lambda>item. \<bar>fst item - rgb_ts\<bar>) depth_list) of
        Inl e \<Rightarrow> Inl e
      | Inr d_idx \<Rightarrow>
          if \<bar>fst (depth_list ! d_idx) - rgb_ts\<bar> > 2 / 100
          then associate depth_list pose_list rest
          else
            (case argmin (map (\<lambda>item. \<bar>fst item - rgb_ts\<bar>) pose_list) of
               Inl e \<Rightarrow> Inl e
             | Inr p_idx \<Rightarrow>
                 if \<bar>fst (pose_list ! p_idx) - rgb_ts\<bar> > 2 / 100
                 then associate depth_list pose_list rest
                 else
                   (case rgb_data of
                      [] \<Rightarrow> Inl IndexError
                    | rgb_tok # _ \<Rightarrow>
                        (case snd (depth_list ! d_idx) of
                           [] \<Rightarrow> Inl IndexError
                         | depth_tok # _ \<Rightarrow>
                             (case associate depth_list pose_list rest of
                                Inl e \<Rightarrow> Inl e
                              | Inr matches \<Rightarrow>
                                  Inr (\<lparr>rgb = rgb_tok, depth = depth_tok,
                                        pose = snd (pose_list ! p_idx)\<rparr> # matches))))))"

subsection \<open>Parsing the poses of the matches\<close>

text \<open>\<open>float(p[k])\<close>: the subscript raises \<open>IndexError\<close>, the conversion \<open>ValueError\<close>.\<close>

definition tok_float :: "(string \<Rightarrow> rat option) \<Rightarrow> string list \<Rightarrow> nat \<Rightarrow> error + rat" where
  "tok_float pf p k =
     (if k < length p
      then (case pf (p ! k) of None \<Rightarrow> Inl ValueError | Some v \<Rightarrow> Inr v)
      else Inl IndexError)"

text \<open>The list display \<open>[float(p[k]) for the given k, left to right]\<close>.\<close>

fun floats_at :: "(string \<Rightarrow> rat option) \<Rightarrow> string list \<Rightarrow> nat list \<Rightarrow> error + rat list" where
  "floats_at pf p [] = Inr []"
| "floats_at pf p (k # ks) =
     (case tok_float pf p k of
        Inl e \<Rightarrow> Inl e
      | Inr v \<Rightarrow>
          (case floats_at pf p ks of
             Inl e \<Rightarrow> Inl e
           | Inr vs \<Rightarrow> Inr (v # vs)))"

fun parse_poses :: "'f env \<Rightarrow> match list \<Rightarrow> error + ('f list list \<times> 'f list list)" where
  "parse_poses env [] = Inr ([], [])"
| "parse_poses env (m # ms) =
     (case floats_at (pyfloat env) (pose m) [0, 1, 2] of
        Inl e \<Rightarrow> Inl e
      | Inr t \<Rightarrow>
          (case floats_at (pyfloat env) (pose m) [3, 4, 5, 6] of
             Inl e \<Rightarrow> Inl e
           | Inr q \<Rightarrow>
               (case parse_poses env ms of
                  Inl e \<Rightarrow> Inl e
                | Inr (poses, quats) \<Rightarrow>
                    Inr (map (float32 env) t # poses, map (float32 env) q # quats))))"

subsection \<open>Construction\<close>

definition exists :: "'f env \<Rightarrow> path \<Rightarrow> bool" where
  "exists env p = (files env p \<noteq> None)"

definition pose_file :: "'f env \<Rightarrow> path \<Rightarrow> path" where
  "pose_file env data_dir =
     (if exists env (Slash data_dir ''groundtruth.txt'')
      then Slash data_dir ''groundtruth.txt''
      else Slash data_dir ''poses.txt'')"

definition load_tum_data ::
    "'f env \<Rightarrow> path \<Rightarrow> error + (path list \<times> path list \<times> 'f list list \<times> 'f list list)" where
  "load_tum_data env data_dir =
     (case read_file_list env (Slash data_dir ''rgb.txt'') of
        Inl e \<Rightarrow> Inl e
      | Inr rgb_list \<Rightarrow>
          (case read_file_list env (Slash data_dir ''depth.txt'') of
             Inl e \<Rightarrow> Inl e
           | Inr depth_list \<Rightarrow>
               (case read_file_list env (pose_file env data_dir) of
                  Inl e \<Rightarrow> Inl e
                | Inr pose_list \<Rightarrow>
                    (case associate depth_list pose_list rgb_list of
                       Inl e \<Rightarrow> Inl e
                     | Inr matches \<Rightarrow>
                         (case parse_poses env matches of
                            Inl e \<Rightarrow> Inl e
                          | Inr (poses, quats) \<Rightarrow>
                              Inr (map (\<lambda>m. Slash data_dir (rgb m)) matches,
                                   map (\<lambda>m. Slash data_dir (depth m)) matches,
                                   poses, quats))))))"

record 'f reader =
  data_dir :: path
  min_range :: rat
  max_range :: rat
  depth_scaling :: rat
  rgb_images :: "path list"
  depth_images :: "path list"
  poses :: "'f list list"
  quats :: "'f list list"
  file_index :: int

text \<open>
  \<open>__init__\<close>. An argument the caller leaves out is \<open>None\<close> and takes the default
  of the signature: 0.01, 30 and 5000.0.
\<close>

definition TUMReader ::
    "'f env \<Rightarrow> path \<Rightarrow> rat option \<Rightarrow> rat option \<Rightarrow> rat option \<Rightarrow> error + 'f reader" where
  "TUMReader env dir mn mx sc =
     (case load_tum_data env dir of
        Inl e \<Rightarrow> Inl e
      | Inr (rgb_paths, depth_paths, ps, qs) \<Rightarrow>
          Inr \<lparr>data_dir = dir,
               min_range = (case mn of None \<Rightarrow> 1 / 100 | Some v \<Rightarrow> v),
               max_range = (case mx of None \<Rightarrow> 30 | Some v \<Rightarrow> v),
               depth_scaling = (case sc of None \<Rightarrow> 5000 | Some v \<Rightarrow> v),
               rgb_images = rgb_paths, depth_images = depth_paths,
               poses = ps, quats = qs, file_index = 0\<rparr>)"

subsection \<open>Queries\<close>

definition len :: "'f reader \<Rightarrow> int" where
  "len r = int (length (rgb_images r))"

text \<open>
  Subscription of a Python list: an index from \<open>-n\<close> to \<open>-1\<close> counts from the end,
  an index outside \<open>-n \<le> i < n\<close> raises \<open>IndexError\<close>.
\<close>

definition subscript :: "'a list \<Rightarrow> int \<Rightarrow> error + 'a" where
  "subscript xs i =
     (let n = int (length xs) in
      if 0 \<le> i \<and> i < n then Inr (xs ! nat i)
      else if - n \<le> i \<and> i < 0 then Inr (xs ! nat (n + i))
      else Inl IndexError)"

text \<open>\<open>Image.open\<close> raises \<open>FileNotFoundError\<close> on a path without a file.\<close>

definition image_open :: "'f env \<Rightarrow> path \<Rightarrow> error + image" where
  "image_open env p = (case images env p of None \<Rightarrow> Inl FileNotFoundError | Some img \<Rightarrow> Inr img)"

type_synonym 'f frame = "int \<times> 'f list \<times> 'f list \<times> 'f list list \<times> ('f \<times> 'f \<times> 'f) list list"

text \<open>
  \<open>__getitem__\<close>. The only check of the index is \<open>item >= len(self)\<close>; the list
  subscripts that follow decide what a negative index does.
\<close>

definition getitem :: "'f env \<Rightarrow> 'f reader \<Rightarrow> int \<Rightarrow> error + 'f frame" where
  "getitem env r item =
     (if item \<ge> len r then Inl IndexError
      else
        (case subscript (poses r) item of
           Inl e \<Rightarrow> Inl e
         | Inr translation \<Rightarrow>
             (case subscript (quats r) item of
                Inl e \<Rightarrow> Inl e
              | Inr quat \<Rightarrow>
                  (case subscript (depth_images r) item of
                     Inl e \<Rightarrow> Inl e
                   | Inr depth_path \<Rightarrow>
                       (case image_open env depth_path of
                          Inl e \<Rightarrow> Inl e
                        | Inr depth_img \<Rightarrow>
                            (case subscript (rgb_images r) item of
                               Inl e \<Rightarrow> Inl e
                             | Inr rgb_path \<Rightarrow>
                                 (case image_open env rgb_path of
                                    Inl e \<Rightarrow> Inl e
                                  | Inr rgb_img \<Rightarrow>
                                      Inr (item + 1, translation, quat,
                                           map (map (\<lambda>v. true_divide env (float32 env (of_nat v))
                                                            (depth_scaling r)))
                                             (raster depth_img),
                                           map (map (\<lambda>(cr, cg, cb).
                                                  (float32 env (of_nat cr), float32 env (of_nat cg),
                                                   float32 env (of_nat cb))))
                                             (rgb_raster rgb_img)))))))))"

text \<open>\<open>__iter__\<close> resets the cursor; \<open>__next__\<close> advances it after a successful read.\<close>

definition iter :: "'f reader \<Rightarrow> 'f reader" where
  "iter r = r\<lparr>file_index := 0\<rparr>"

definition next_frame :: "'f env \<Rightarrow> 'f reader \<Rightarrow> (error + 'f frame) \<times> 'f reader" where
  "next_frame env r =
     (if file_index r \<ge> len r then (Inl StopIteration, r)
      else
        (case getitem env r (file_index r) of
           Inl e \<Rightarrow> (Inl e, r)
         | Inr result \<Rightarrow> (Inr result, r\<lparr>file_index := file_index r + 1\<rparr>)))"


text \<open>
  A \<open>for\<close> loop over the reader after \<open>__iter__\<close>: it calls \<open>__next__\<close>
  until an exception ends it, and gives the frames yielded, that exception
  (\<open>StopIteration\<close> at a regular end) and the reader as the loop leaves it.
\<close>

function collect :: "'f env \<Rightarrow> 'f reader \<Rightarrow> 'f frame list \<times> error \<times> 'f reader" where
  "collect env r =
     (case next_frame env r of
        (Inl e, r') \<Rightarrow> ([], e, r')
      | (Inr result, r') \<Rightarrow>
          (case collect env r' of (results, e, r'') \<Rightarrow> (result # results, e, r'')))"
  by pat_completeness auto
termination
  apply (relation "measure (\<lambda>(env, r). nat (len r - file_index r))")
   apply simp
  apply (auto simp: next_frame_def len_def split: if_splits sum.splits)
  done

declare collect.simps [simp del]

subsection \<open>The association as the specification words it\<close>

text \<open>
  These definitions follow the specification, not the code; the theorems below compare
  them with \<open>associate\<close>. The nearest record of a list is the one at the first index
  whose absolute timestamp difference is minimal; there is none in an empty list.
\<close>

definition spec_nearest :: "rat \<Rightarrow> (rat \<times> string list) list \<Rightarrow> nat option" where
  "spec_nearest ts recs =
     find (\<lambda>i. \<forall>j < length recs. \<bar>fst (recs ! i) - ts\<bar> \<le> \<bar>fst (recs ! j) - ts\<bar>) [0..<length recs]"

text \<open>The least absolute timestamp difference over a list of records.\<close>

definition min_diff :: "rat \<Rightarrow> (rat \<times> string list) list \<Rightarrow> rat" where
  "min_diff ts recs = Min (set (map (\<lambda>item. \<bar>fst item - ts\<bar>) recs))"

text \<open>The partner of a timestamp: its nearest record, if that is at most 0.02 away.\<close>

definition spec_partner :: "rat \<Rightarrow> (rat \<times> string list) list \<Rightarrow> (rat \<times> string list) option" where
  "spec_partner ts recs =
     (case spec_nearest ts recs of
        None \<Rightarrow> None
      | Some i \<Rightarrow> if \<bar>fst (recs ! i) - ts\<bar> \<le> 2 / 100 then Some (recs ! i) else None)"




text \<open>
  A pose record has its seven leading numeric fields: at least seven tokens, and
  \<open>float\<close> accepts each of the first seven.
\<close>

definition seven_numeric :: "(string \<Rightarrow> rat option) \<Rightarrow> string list \<Rightarrow> bool" where
  "seven_numeric pf p = (7 \<le> length p \<and> (\<forall>k < 7. pf (p ! k) \<noteq> None))"

text \<open>The invariant of the scan of \<open>argmin\<close>: \<open>k\<close> is the first index of a least element.\<close>

definition is_first_min :: "rat list \<Rightarrow> nat \<Rightarrow> bool" where
  "is_first_min xs k = (k < length xs \<and> (\<forall>j < length xs. xs ! k \<le> xs ! j) \<and> (\<forall>j < k. xs ! k < xs ! j))"

subsection \<open>Well-formed readers\<close>

text \<open>
  The four lists of a reader have one entry per match. Construction establishes this
  (lemma \<open>TUMReader_inv\<close> below) and no method assigns any of the lists afterwards.
\<close>

definition reader_inv :: "'f reader \<Rightarrow> bool" where
  "reader_inv r = (length (depth_images r) = length (rgb_images r) \<and>
                   length (poses r) = length (rgb_images r) \<and>
                   length (quats r) = length (rgb_images r))"

subsection \<open>An example sequence\<close>

text \<open>
  A directory with three colour records, of which the second has no depth record
  within tolerance. The environment computes with rationals; \<open>ex_float\<close> is
  \<open>float\<close> on the tokens that occur.
\<close>

definition ex_float :: "string \<Rightarrow> rat option" where
  "ex_float = map_of
     [(''0.0'', 0), (''1.0'', 1), (''2.0'', 2), (''3.0'', 3), (''4.0'', 4), (''5.0'', 5), (''6.0'', 6),
      (''0.100000'', 1 / 10), (''0.105000'', 105 / 1000), (''0.101000'', 101 / 1000),
      (''0.500000'', 1 / 2), (''0.600000'', 6 / 10),
      (''1.000000'', 1), (''1.010000'', 101 / 100), (''0.990000'', 99 / 100),
      (''0.02'', 2 / 100), (''0.03'', 3 / 100)]"

definition ex_dir :: path where
  "ex_dir = Dir ''seq''"

definition ex_env :: "rat env" where
  "ex_env =
     \<lparr>files =
        [Slash ex_dir ''rgb.txt'' \<mapsto>
           [''# color images'', ''0.100000 rgb/1.png'', ''0.500000 rgb/2.png'', ''1.000000 rgb/3.png''],
         Slash ex_dir ''depth.txt'' \<mapsto>
           [''0.105000 depth/1.png'', ''0.600000 depth/2.png'', ''1.010000 depth/3.png''],
         Slash ex_dir ''groundtruth.txt'' \<mapsto>
           [''0.101000 1.0 2.0 3.0 0.0 0.0 0.0 1.0'', ''0.990000 4.0 5.0 6.0 0.0 0.0 1.0 0.0'']],
      images =
        [Slash ex_dir ''rgb/1.png'' \<mapsto> \<lparr>raster = [[7]], rgb_raster = [[(7, 8, 9)]]\<rparr>,
         Slash ex_dir ''rgb/3.png'' \<mapsto> \<lparr>raster = [[1]], rgb_raster = [[(1, 2, 3)]]\<rparr>,
         Slash ex_dir ''depth/1.png'' \<mapsto> \<lparr>raster = [[10000]], rgb_raster = [[(255, 255, 255)]]\<rparr>,
         Slash ex_dir ''depth/3.png'' \<mapsto> \<lparr>raster = [[5000]], rgb_raster = [[(255, 255, 255)]]\<rparr>],
      pyfloat = ex_float, float32 = (\<lambda>x. x), true_divide = (\<lambda>x y. x / y)\<rparr>"

definition ex_reader :: "rat reader" where
  "ex_reader =
     \<lparr>data_dir = ex_dir, min_range = 1 / 100, max_range = 30, depth_scaling = 5000,
      rgb_images = [Slash ex_dir ''rgb/1.png'', Slash ex_dir ''rgb/3.png''],
      depth_images = [Slash ex_dir ''depth/1.png'', Slash ex_dir ''depth/3.png''],
      poses = [[1, 2, 3], [4, 5, 6]], quats = [[0, 0, 0, 1], [0, 0, 1, 0]], file_index = 0\<rparr>"

definition ex_frames :: "int \<Rightarrow> rat frame" where
  "ex_frames i = (if i = 0 then (1, [1, 2, 3], [0, 0, 0, 1], [[2]], [[(7, 8, 9)]])
                  else (2, [4, 5, 6], [0, 0, 1, 0], [[1]], [[(1, 2, 3)]]))"

text \<open>The records of the three list files of the example.\<close>

definition ex_rgb_list :: "(rat \<times> string list) list" where
  "ex_rgb_list = [(1 / 10, [''rgb/1.png'']), (1 / 2, [''rgb/2.png'']), (1, [''rgb/3.png''])]"

definition ex_depth_list :: "(rat \<times> string list) list" where
  "ex_depth_list = [(105 / 1000, [''depth/1.png'']), (6 / 10, [''depth/2.png'']), (101 / 100, [''depth/3.png''])]"


text \<open>
  Three matches for the pose loop: one with an eighth token, one with six tokens, one
  with a word where a number belongs.
\<close>

definition ex_pose_extra :: match where
  "ex_pose_extra = \<lparr>rgb = ''rgb/1.png'', depth = ''depth/1.png'',
     pose = [''1.0'', ''2.0'', ''3.0'', ''0.0'', ''0.0'', ''0.0'', ''1.0'', ''extra'']\<rparr>"

definition ex_pose_short :: match where
  "ex_pose_short = \<lparr>rgb = ''rgb/1.png'', depth = ''depth/1.png'',
     pose = [''1.0'', ''2.0'', ''3.0'', ''0.0'', ''0.0'', ''0.0'']\<rparr>"

definition ex_pose_word :: match where
  "ex_pose_word = \<lparr>rgb = ''rgb/1.png'', depth = ''depth/1.png'',
     pose = [''1.0'', ''north'', ''3.0'', ''0.0'', ''0.0'', ''0.0'', ''1.0'']\<rparr>"

text \<open>
  The example directory with one list file removed, and with a colour list whose only
  line is a column header while \<open>depth.txt\<close> is absent.
\<close>

definition ex_env_without :: "string \<Rightarrow> rat env" where
  "ex_env_without name = ex_env\<lparr>files := (files ex_env)(Slash ex_dir name := None)\<rparr>"

definition ex_bad_env :: "rat env" where
  "ex_bad_env = ex_env\<lparr>files := [Slash ex_dir ''rgb.txt'' \<mapsto> [''timestamp filename'']]\<rparr>"

lemmas ex_simps = ex_env_def ex_dir_def ex_reader_def ex_float_def


section \<open>Properties\<close>

subsection \<open>Auxiliary facts\<close>

lemma parse_poses_length:
  "parse_poses env ms = Inr (ps, qs) \<Longrightarrow> length ps = length ms \<and> length qs = length ms"
proof (induction ms arbitrary: ps qs)
  case Nil
  then show ?case by simp
next
  case (Cons m ms)
  then show ?case
    by (auto split: sum.splits prod.splits)
qed

lemma load_tum_data_lengths:
  assumes "load_tum_data env dir = Inr (rp, dp, ps, qs)"
  shows "length dp = length rp \<and> length ps = length rp \<and> length qs = length rp"
  using assms unfolding load_tum_data_def
  by (auto split: sum.splits prod.splits dest: parse_poses_length)

lemma TUMReader_inv: "TUMReader env dir mn mx sc = Inr r \<Longrightarrow> reader_inv r"
  unfolding TUMReader_def reader_inv_def
  by (auto split: sum.splits prod.splits dest: load_tum_data_lengths)

lemma subscript_valid: "0 \<le> i \<Longrightarrow> i < int (length xs) \<Longrightarrow> subscript xs i = Inr (xs ! nat i)"
  by (simp add: subscript_def)

lemma subscript_negative:
  "- int (length xs) \<le> i \<Longrightarrow> i < 0 \<Longrightarrow> subscript xs i = Inr (xs ! nat (int (length xs) + i))"
  by (simp add: subscript_def)

lemma subscript_outside:
  "i \<ge> int (length xs) \<or> i < - int (length xs) \<Longrightarrow> subscript xs i = Inl IndexError"
  by (auto simp add: subscript_def Let_def)

lemma getitem_Inr_fst: "getitem env r i = Inr t \<Longrightarrow> fst t = i + 1"
  unfolding getitem_def by (auto split: if_splits sum.splits)

lemma getitem_valid:
  assumes "reader_inv r" "0 \<le> i" "i < len r"
    and "images env (depth_images r ! nat i) = Some dimg"
    and "images env (rgb_images r ! nat i) = Some cimg"
  shows "getitem env r i =
      Inr (i + 1, poses r ! nat i, quats r ! nat i,
           map (map (\<lambda>v. true_divide env (float32 env (of_nat v)) (depth_scaling r))) (raster dimg),
           map (map (\<lambda>(cr, cg, cb). (float32 env (of_nat cr), float32 env (of_nat cg),
                                       float32 env (of_nat cb)))) (rgb_raster cimg))"
  using assms unfolding getitem_def reader_inv_def len_def
  by (simp add: subscript_valid image_open_def)

lemma getitem_negative:
  assumes "reader_inv r" "- len r \<le> i" "i < 0"
    and "images env (depth_images r ! nat (len r + i)) = Some dimg"
    and "images env (rgb_images r ! nat (len r + i)) = Some cimg"
  shows "getitem env r i =
      Inr (i + 1, poses r ! nat (len r + i), quats r ! nat (len r + i),
           map (map (\<lambda>v. true_divide env (float32 env (of_nat v)) (depth_scaling r))) (raster dimg),
           map (map (\<lambda>(cr, cg, cb). (float32 env (of_nat cr), float32 env (of_nat cg),
                                       float32 env (of_nat cb)))) (rgb_raster cimg))"
  using assms unfolding getitem_def reader_inv_def len_def
  by (simp add: subscript_negative image_open_def)

lemma getitem_outside:
  assumes "reader_inv r" "i \<ge> len r \<or> i < - len r"
  shows "getitem env r i = Inl IndexError"
  using assms unfolding getitem_def reader_inv_def len_def
  by (auto simp add: subscript_outside)

lemma getitem_not_IndexError:
  assumes "reader_inv r" "- len r \<le> i" "i < len r"
  shows "getitem env r i \<noteq> Inl IndexError"
  using assms unfolding getitem_def reader_inv_def len_def
  by (auto simp add: subscript_def image_open_def Let_def split: sum.splits option.splits)

lemma ex_load:
  "load_tum_data ex_env ex_dir =
     Inr ([Slash ex_dir ''rgb/1.png'', Slash ex_dir ''rgb/3.png''],
          [Slash ex_dir ''depth/1.png'', Slash ex_dir ''depth/3.png''],
          [[1, 2, 3], [4, 5, 6]], [[0, 0, 0, 1], [0, 0, 1, 0]])"
  by (simp add: load_tum_data_def read_file_list_def ex_simps pose_file_def exists_def
      startswith_hash_def str_split_def isspace_def argmin_def tok_float_def)

lemma ex_reader_constructed: "TUMReader ex_env ex_dir None None None = Inr ex_reader"
  by (simp add: TUMReader_def ex_load) (simp add: ex_reader_def)

lemma ex_reader_inv: "reader_inv ex_reader"
  by (simp add: reader_inv_def ex_reader_def)

lemma ex_len: "len ex_reader = 2"
  by (simp add: len_def ex_reader_def)

lemma ex_get0: "getitem ex_env ex_reader 0 = Inr (1, [1, 2, 3], [0, 0, 0, 1], [[2]], [[(7, 8, 9)]])"
  by (simp add: getitem_def len_def subscript_def image_open_def ex_simps)

lemma ex_get1: "getitem ex_env ex_reader 1 = Inr (2, [4, 5, 6], [0, 0, 1, 0], [[1]], [[(1, 2, 3)]])"
  by (simp add: getitem_def len_def subscript_def image_open_def ex_simps)

lemma ex_get_m1: "getitem ex_env ex_reader (- 1) = Inr (0, [4, 5, 6], [0, 0, 1, 0], [[1]], [[(1, 2, 3)]])"
  by (simp add: getitem_def len_def subscript_def image_open_def ex_simps)


lemma getitem_file_index: "getitem env (r\<lparr>file_index := k\<rparr>) i = getitem env r i"
  by (auto simp: getitem_def len_def split: sum.splits)

lemma len_file_index: "len (r\<lparr>file_index := k\<rparr>) = len r"
  by (simp add: len_def)

lemma collect_from:
  assumes "\<forall>i. int k \<le> i \<and> i < len r \<longrightarrow> getitem env r i = Inr (f i)"
    and "int k \<le> len r"
  shows "collect env (r\<lparr>file_index := int k\<rparr>) =
           (map (\<lambda>i. f (int i)) [k..<nat (len r)], StopIteration, r\<lparr>file_index := len r\<rparr>)"
  using assms
proof (induction "nat (len r) - k" arbitrary: k)
  case 0
  then have k: "int k = len r" by simp
  then have "next_frame env (r\<lparr>file_index := int k\<rparr>) = (Inl StopIteration, r\<lparr>file_index := int k\<rparr>)"
    by (simp add: next_frame_def len_file_index)
  then show ?case using k by (subst collect.simps) simp
next
  case (Suc n)
  then have k: "int k < len r" by linarith
  have g: "getitem env r (int k) = Inr (f (int k))" using Suc.prems(1) k by simp
  have nx: "next_frame env (r\<lparr>file_index := int k\<rparr>) = (Inr (f (int k)), r\<lparr>file_index := int (Suc k)\<rparr>)"
    using k g by (simp add: next_frame_def len_file_index getitem_file_index)
  have ih: "collect env (r\<lparr>file_index := int (Suc k)\<rparr>) =
      (map (\<lambda>i. f (int i)) [Suc k..<nat (len r)], StopIteration, r\<lparr>file_index := len r\<rparr>)"
  proof (rule Suc.hyps(1))
    show "n = nat (len r) - Suc k" using Suc.hyps(2) by simp
    show "\<forall>i. int (Suc k) \<le> i \<and> i < len r \<longrightarrow> getitem env r i = Inr (f i)"
      using Suc.prems(1) by simp
    show "int (Suc k) \<le> len r" using k by simp
  qed
  have "[k..<nat (len r)] = k # [Suc k..<nat (len r)]"
    using k by (simp add: upt_conv_Cons)
  then show ?case
    using nx ih by (subst collect.simps) simp
qed

lemma argmin_scan_first_min:
  assumes "is_first_min pre best_i" "best = pre ! best_i" "i = length pre"
  shows "is_first_min (pre @ xs) (argmin_scan xs i best best_i)"
  using assms
proof (induction xs arbitrary: pre best best_i i)
  case Nil
  then show ?case by simp
next
  case (Cons x xs)
  show ?case
  proof (cases "x < best")
    case True
    have "is_first_min (pre @ [x]) i"
      unfolding is_first_min_def using Cons.prems True
      by (auto simp: is_first_min_def nth_append less_Suc_eq intro: less_le_trans)
    from Cons.IH[OF this, of x "Suc i"] Cons.prems(3) True show ?thesis by simp
  next
    case False
    have "is_first_min (pre @ [x]) best_i"
      unfolding is_first_min_def using Cons.prems False
      by (auto simp: is_first_min_def nth_append less_Suc_eq)
    from Cons.IH[OF this, of best "Suc i"] Cons.prems False show ?thesis
      by (simp add: nth_append is_first_min_def)
  qed
qed

lemma argmin_first_min:
  assumes "xs \<noteq> []"
  shows "\<exists>k. argmin xs = Inr k \<and> is_first_min xs k"
proof -
  from assms obtain x rest where xs: "xs = x # rest" by (cases xs) auto
  have "is_first_min [x] 0" by (simp add: is_first_min_def)
  from argmin_scan_first_min[OF this, of x 1 rest] show ?thesis
    by (simp add: xs argmin_def)
qed


lemma spec_nearest_first_min:
  assumes "is_first_min (map (\<lambda>item. \<bar>fst item - ts\<bar>) recs) k"
  shows "spec_nearest ts recs = Some k"
proof -
  let ?P = "\<lambda>i. \<forall>j < length recs. \<bar>fst (recs ! i) - ts\<bar> \<le> \<bar>fst (recs ! j) - ts\<bar>"
  have k: "k < length recs" using assms by (simp add: is_first_min_def)
  have Pk: "?P k" using assms k by (auto simp: is_first_min_def)
  have before: "\<not> ?P j" if "j < k" for j
  proof
    assume "?P j"
    then have "\<bar>fst (recs ! j) - ts\<bar> \<le> \<bar>fst (recs ! k) - ts\<bar>" using k by blast
    moreover have "\<bar>fst (recs ! k) - ts\<bar> < \<bar>fst (recs ! j) - ts\<bar>"
      using assms that k by (auto simp: is_first_min_def)
    ultimately show False by simp
  qed
  show ?thesis
    unfolding spec_nearest_def find_Some_iff
    by (rule exI[of _ k]) (use k Pk before in auto)
qed

lemma spec_nearest_empty: "spec_nearest ts [] = None"
  by (simp add: spec_nearest_def)


lemma spec_nearest_Some_iff:
  "spec_nearest ts recs = Some k \<longleftrightarrow>
     k < length recs \<and>
     (\<forall>j < length recs. \<bar>fst (recs ! k) - ts\<bar> \<le> \<bar>fst (recs ! j) - ts\<bar>) \<and>
     (\<forall>j < k. \<bar>fst (recs ! k) - ts\<bar> < \<bar>fst (recs ! j) - ts\<bar>)"
proof
  assume "spec_nearest ts recs = Some k"
  then have recs: "recs \<noteq> []" by (auto simp: spec_nearest_empty)
  then have "map (\<lambda>item. \<bar>fst item - ts\<bar>) recs \<noteq> []" by simp
  from argmin_first_min[OF this] obtain k' where
    k': "is_first_min (map (\<lambda>item. \<bar>fst item - ts\<bar>) recs) k'" by blast
  from spec_nearest_first_min[OF k'] \<open>spec_nearest ts recs = Some k\<close> have "k' = k" by simp
  with k' show "k < length recs \<and>
     (\<forall>j < length recs. \<bar>fst (recs ! k) - ts\<bar> \<le> \<bar>fst (recs ! j) - ts\<bar>) \<and>
     (\<forall>j < k. \<bar>fst (recs ! k) - ts\<bar> < \<bar>fst (recs ! j) - ts\<bar>)"
    by (auto simp: is_first_min_def)
next
  assume a: "k < length recs \<and>
     (\<forall>j < length recs. \<bar>fst (recs ! k) - ts\<bar> \<le> \<bar>fst (recs ! j) - ts\<bar>) \<and>
     (\<forall>j < k. \<bar>fst (recs ! k) - ts\<bar> < \<bar>fst (recs ! j) - ts\<bar>)"
  then have "is_first_min (map (\<lambda>item. \<bar>fst item - ts\<bar>) recs) k"
    by (auto simp: is_first_min_def)
  then show "spec_nearest ts recs = Some k" by (rule spec_nearest_first_min)
qed

lemma spec_nearest_min_diff:
  assumes "spec_nearest ts recs = Some k"
  shows "\<bar>fst (recs ! k) - ts\<bar> = min_diff ts recs"
proof -
  from assms have k: "k < length recs"
    and le: "\<forall>j < length recs. \<bar>fst (recs ! k) - ts\<bar> \<le> \<bar>fst (recs ! j) - ts\<bar>"
    by (simp_all add: spec_nearest_Some_iff)
  have "Min (set (map (\<lambda>item. \<bar>fst item - ts\<bar>) recs)) = \<bar>fst (recs ! k) - ts\<bar>"
  proof (rule Min_eqI)
    show "finite (set (map (\<lambda>item. \<bar>fst item - ts\<bar>) recs))" by simp
    show "\<bar>fst (recs ! k) - ts\<bar> \<in> set (map (\<lambda>item. \<bar>fst item - ts\<bar>) recs)"
      using k by (auto simp: in_set_conv_nth intro!: image_eqI[of _ _ "recs ! k"])
    fix y assume "y \<in> set (map (\<lambda>item. \<bar>fst item - ts\<bar>) recs)"
    then obtain j where "j < length recs" "y = \<bar>fst (recs ! j) - ts\<bar>"
      by (auto simp: in_set_conv_nth)
    with le show "\<bar>fst (recs ! k) - ts\<bar> \<le> y" by simp
  qed
  then show ?thesis by (simp add: min_diff_def)
qed











lemma spec_partner_min_diff:
  assumes "spec_partner ts recs = Some d"
  shows "d \<in> set recs \<and> \<bar>fst d - ts\<bar> = min_diff ts recs \<and> \<bar>fst d - ts\<bar> \<le> 2 / 100"
proof -
  from assms obtain k where k: "spec_nearest ts recs = Some k" and d: "d = recs ! k"
    and le: "\<bar>fst (recs ! k) - ts\<bar> \<le> 2 / 100"
    by (auto simp: spec_partner_def split: option.splits if_splits)
  from k have "k < length recs" by (simp add: spec_nearest_Some_iff)
  with spec_nearest_min_diff[OF k] d le show ?thesis by simp
qed

lemma floats_at_Inr:
  assumes "\<forall>k \<in> set ks. k < length p \<and> pf (p ! k) \<noteq> None"
  shows "floats_at pf p ks = Inr (map (\<lambda>k. the (pf (p ! k))) ks)"
  using assms by (induction ks) (auto simp: tok_float_def)

lemma floats_at_upt_error:
  assumes "\<exists>k. a \<le> k \<and> k < b \<and> (length p \<le> k \<or> pf (p ! k) = None)"
  shows "floats_at pf p [a..<b] =
           Inl (if \<exists>k. a \<le> k \<and> k < b \<and> k < length p \<and> pf (p ! k) = None
                then ValueError else IndexError)"
  using assms
proof (induction "b - a" arbitrary: a)
  case 0
  then show ?case by auto
next
  case (Suc n)
  then have ab: "a < b" by linarith
  then have upt: "[a..<b] = a # [Suc a..<b]" by (simp add: upt_conv_Cons)
  show ?case
  proof (cases "a < length p")
    case False
    then have "\<not> (\<exists>k. a \<le> k \<and> k < b \<and> k < length p \<and> pf (p ! k) = None)" by auto
    then show ?thesis using False by (simp add: upt tok_float_def)
  next
    case inside: True
    show ?thesis
    proof (cases "pf (p ! a)")
      case None
      then have "\<exists>k. a \<le> k \<and> k < b \<and> k < length p \<and> pf (p ! k) = None"
        using ab inside by auto
      then show ?thesis using None inside by (simp add: upt tok_float_def)
    next
      case (Some v)
      have later: "\<exists>k. Suc a \<le> k \<and> k < b \<and> (length p \<le> k \<or> pf (p ! k) = None)"
      proof -
        from Suc.prems obtain k where k: "a \<le> k" "k < b" "length p \<le> k \<or> pf (p ! k) = None"
          by blast
        then have "k \<noteq> a" using inside Some by auto
        with k show ?thesis by (intro exI[of _ k]) auto
      qed
      have n: "n = b - Suc a" using Suc.hyps(2) by simp
      have same: "(\<exists>k. Suc a \<le> k \<and> k < b \<and> k < length p \<and> pf (p ! k) = None) \<longleftrightarrow>
                  (\<exists>k. a \<le> k \<and> k < b \<and> k < length p \<and> pf (p ! k) = None)"
        using Some by (metis Suc_leD Suc_leI le_neq_implies_less option.distinct(1))
      show ?thesis
        using Suc.hyps(1)[OF n later] Some inside same by (simp add: upt tok_float_def)
    qed
  qed
qed

lemma pose_lists_upt: "[0, 1, 2] = [0..<3]" "[3, 4, 5, 6] = [3..<7]"
  by (simp_all add: upt_rec)

lemma parse_poses_Cons_ok:
  assumes "seven_numeric (pyfloat env) (pose m)"
  shows "parse_poses env (m # ms) =
           (case parse_poses env ms of
              Inl e \<Rightarrow> Inl e
            | Inr (ps, qs) \<Rightarrow>
                Inr (map (\<lambda>k. float32 env (the (pyfloat env (pose m ! k)))) [0, 1, 2] # ps,
                     map (\<lambda>k. float32 env (the (pyfloat env (pose m ! k)))) [3, 4, 5, 6] # qs))"
proof -
  have t: "floats_at (pyfloat env) (pose m) [0, 1, 2] =
             Inr (map (\<lambda>k. the (pyfloat env (pose m ! k))) [0, 1, 2])"
    using assms by (intro floats_at_Inr) (auto simp: seven_numeric_def)
  have q: "floats_at (pyfloat env) (pose m) [3, 4, 5, 6] =
             Inr (map (\<lambda>k. the (pyfloat env (pose m ! k))) [3, 4, 5, 6])"
    using assms by (intro floats_at_Inr) (auto simp: seven_numeric_def)
  show ?thesis
    by (simp only: parse_poses.simps t q sum.case) (simp split: sum.splits prod.splits)
qed

lemma parse_poses_Cons_bad:
  assumes "\<not> seven_numeric (pyfloat env) (pose m)"
  shows "parse_poses env (m # ms) =
           Inl (if \<exists>k < 7. k < length (pose m) \<and> pyfloat env (pose m ! k) = None
                then ValueError else IndexError)"
proof -
  let ?p = "pose m" and ?pf = "pyfloat env"
  from assms have bad: "\<exists>k. k < 7 \<and> (length ?p \<le> k \<or> ?pf (?p ! k) = None)"
    unfolding seven_numeric_def by (metis not_le_imp_less order_refl)
  show ?thesis
  proof (cases "\<exists>k. 0 \<le> k \<and> k < 3 \<and> (length ?p \<le> k \<or> ?pf (?p ! k) = None)")
    case True
    from floats_at_upt_error[OF True]
    have t: "floats_at ?pf ?p [0..<3] =
        Inl (if \<exists>k. 0 \<le> k \<and> k < 3 \<and> k < length ?p \<and> ?pf (?p ! k) = None
             then ValueError else IndexError)" .
    have eq: "(\<exists>k. 0 \<le> k \<and> k < 3 \<and> k < length ?p \<and> ?pf (?p ! k) = None) \<longleftrightarrow>
              (\<exists>k < 7. k < length ?p \<and> ?pf (?p ! k) = None)"
    proof
      assume "\<exists>k. 0 \<le> k \<and> k < 3 \<and> k < length ?p \<and> ?pf (?p ! k) = None"
      then obtain k where "k < 3" "k < length ?p" "?pf (?p ! k) = None" by auto
      then have "k < 7 \<and> k < length ?p \<and> ?pf (?p ! k) = None" by simp
      then show "\<exists>k < 7. k < length ?p \<and> ?pf (?p ! k) = None" by blast
    next
      assume r: "\<exists>k < 7. k < length ?p \<and> ?pf (?p ! k) = None"
      from True obtain j where j: "j < 3" "length ?p \<le> j \<or> ?pf (?p ! j) = None" by auto
      from r obtain k where k: "k < 7" "k < length ?p" "?pf (?p ! k) = None" by auto
      show "\<exists>k. 0 \<le> k \<and> k < 3 \<and> k < length ?p \<and> ?pf (?p ! k) = None"
      proof (cases "length ?p \<le> j")
        case True
        then have "k < 3" using j(1) k(2) by linarith
        with k show ?thesis by auto
      next
        case False
        with j show ?thesis by auto
      qed
    qed
    show ?thesis
      using t by (simp only: parse_poses.simps pose_lists_upt sum.case eq)
  next
    case False
    then have ok3: "\<forall>k \<in> set [0..<3]. k < length ?p \<and> ?pf (?p ! k) \<noteq> None" by auto
    have t: "floats_at ?pf ?p [0..<3] = Inr (map (\<lambda>k. the (?pf (?p ! k))) [0..<3])"
      by (rule floats_at_Inr[OF ok3])
    from bad False have late: "\<exists>k. 3 \<le> k \<and> k < 7 \<and> (length ?p \<le> k \<or> ?pf (?p ! k) = None)"
      by (metis not_le_imp_less zero_le)
    from floats_at_upt_error[OF late]
    have q: "floats_at ?pf ?p [3..<7] =
        Inl (if \<exists>k. 3 \<le> k \<and> k < 7 \<and> k < length ?p \<and> ?pf (?p ! k) = None
             then ValueError else IndexError)" .
    have eq: "(\<exists>k. 3 \<le> k \<and> k < 7 \<and> k < length ?p \<and> ?pf (?p ! k) = None) \<longleftrightarrow>
              (\<exists>k < 7. k < length ?p \<and> ?pf (?p ! k) = None)"
      using False by (metis not_le_imp_less zero_le)
    show ?thesis
      using t q by (simp only: parse_poses.simps pose_lists_upt sum.case eq)
  qed
qed

lemma all_less_7: "(\<forall>k < (7::nat). P k) \<longleftrightarrow> P 0 \<and> P 1 \<and> P 2 \<and> P 3 \<and> P 4 \<and> P 5 \<and> P 6"
proof -
  have e: "[0..<7] = [0, 1, 2, 3, 4, 5, 6 :: nat]" by code_simp
  have "(\<forall>k < (7::nat). P k) \<longleftrightarrow> (\<forall>k \<in> set [0..<7]. P k)" by auto
  then show ?thesis unfolding e by simp
qed

lemma ex_seven_numeric:
  "seven_numeric (pyfloat ex_env) (pose ex_pose_extra)"
  "\<not> seven_numeric (pyfloat ex_env) (pose ex_pose_short)"
  "\<not> seven_numeric (pyfloat ex_env) (pose ex_pose_word)"
  by (simp_all add: seven_numeric_def all_less_7 ex_simps ex_pose_extra_def ex_pose_short_def
      ex_pose_word_def)

lemma parse_poses_env:
  assumes "pyfloat env' = pyfloat env" "float32 env' = float32 env"
  shows "parse_poses env' ms = parse_poses env ms"
  by (induction ms) (auto simp: assms split: sum.splits prod.splits)

lemma read_file_list_absent: "files env p = None \<Longrightarrow> read_file_list env p = Inl FileNotFoundError"
  by (simp add: read_file_list_def)

lemma ex_without_reads:
  "read_file_list (ex_env_without ''depth.txt'') (Slash ex_dir ''rgb.txt'') = Inr ex_rgb_list"
  "read_file_list (ex_env_without ''groundtruth.txt'') (Slash ex_dir ''rgb.txt'') = Inr ex_rgb_list"
  "read_file_list (ex_env_without ''groundtruth.txt'') (Slash ex_dir ''depth.txt'') = Inr ex_depth_list"
  by (simp_all add: read_file_list_def ex_env_without_def ex_simps startswith_hash_def
      str_split_def isspace_def ex_rgb_list_def ex_depth_list_def)

subsection \<open>Indexing\<close>

text \<open>
  Claim C5. For every reader and every valid index \<open>i\<close> in \<open>[0, length())\<close>, the
  first element of the tuple returned by \<open>get(i)\<close> is \<open>i + 1\<close>; and \<open>get(i)\<close>
  does return a tuple when the two image files of the match exist.
\<close>

theorem getitem_index_one_based:
  assumes "reader_inv r" "0 \<le> i" "i < len r"
  shows "(\<forall>t. getitem env r i = Inr t \<longrightarrow> fst t = i + 1) \<and>
         (images env (depth_images r ! nat i) \<noteq> None \<and> images env (rgb_images r ! nat i) \<noteq> None
            \<longrightarrow> (\<exists>t. getitem env r i = Inr t))"
proof (intro conjI allI impI)
  fix t assume "getitem env r i = Inr t"
  then show "fst t = i + 1" by (rule getitem_Inr_fst)
next
  assume "images env (depth_images r ! nat i) \<noteq> None \<and> images env (rgb_images r ! nat i) \<noteq> None"
  then obtain dimg cimg where "images env (depth_images r ! nat i) = Some dimg"
    "images env (rgb_images r ! nat i) = Some cimg" by auto
  from getitem_valid[OF assms this] show "\<exists>t. getitem env r i = Inr t" by blast
qed

theorem getitem_index_one_based_witness:
  "reader_inv ex_reader \<and> (0::int) \<le> 1 \<and> 1 < len ex_reader \<and>
   (\<exists>t. getitem ex_env ex_reader 1 = Inr t \<and> fst t = 1 + 1)"
proof -
  have inv: "reader_inv ex_reader" by (rule ex_reader_inv)
  have lt: "1 < len ex_reader" by (simp add: ex_len)
  have "\<forall>t. getitem ex_env ex_reader 1 = Inr t \<longrightarrow> fst t = 1 + 1"
    using getitem_index_one_based[OF inv _ lt, of ex_env] by simp
  then show ?thesis using inv lt ex_get1 by simp
qed

text \<open>
  Claim C2, as the code has it. For every reader, \<open>get(i)\<close> raises \<open>IndexError\<close>
  at every index \<open>i \<ge> length()\<close> and at every index \<open>i < -length()\<close>.
  \<open>__getitem__\<close> assigns no attribute of the reader, which is why it is a function
  of the reader here: a failing call leaves every later result as it was.
\<close>

theorem getitem_out_of_range:
  assumes "reader_inv r" "i \<ge> len r \<or> i < - len r"
  shows "getitem env r i = Inl IndexError"
  using assms by (rule getitem_outside)

theorem getitem_out_of_range_witness:
  "reader_inv ex_reader \<and> (2 \<ge> len ex_reader \<or> 2 < - len ex_reader) \<and>
   getitem ex_env ex_reader 2 = Inl IndexError \<and>
   getitem ex_env ex_reader (- 3) = Inl IndexError"
proof -
  have a: "2 \<ge> len ex_reader \<or> 2 < - len ex_reader" by (simp add: ex_len)
  have b: "- 3 \<ge> len ex_reader \<or> - 3 < - len ex_reader" by (simp add: ex_len)
  show ?thesis
    using getitem_out_of_range[OF ex_reader_inv a, of ex_env]
      getitem_out_of_range[OF ex_reader_inv b, of ex_env] ex_reader_inv a by simp
qed

text \<open>
  Claim C2 as stated asks for \<open>IndexError\<close> at every index outside
  \<open>[0, length())\<close>. The index \<open>-1\<close> is outside, and on the example reader
  \<open>get(-1)\<close> returns the last frame under the external index 0.
\<close>

theorem getitem_negative_not_rejected:
  "- 1 < (0::int) \<and> len ex_reader = 2 \<and>
   getitem ex_env ex_reader (- 1) = Inr (0, [4, 5, 6], [0, 0, 1, 0], [[1]], [[(1, 2, 3)]])"
  by (simp add: ex_len ex_get_m1)

text \<open>
  Claim C3. For a reader of length \<open>N \<ge> 1\<close> and \<open>1 \<le> k \<le> N\<close>, the subscript at
  \<open>-k\<close> does not raise \<open>IndexError\<close>; a tuple it returns has first element
  \<open>-k + 1\<close> and the translation and orientation of the match at position \<open>N - k\<close>;
  and it returns a tuple when the two image files of that match exist.
\<close>

theorem getitem_negative_index:
  assumes "reader_inv r" "1 \<le> k" "k \<le> len r"
  shows "getitem env r (- k) \<noteq> Inl IndexError \<and>
         (\<forall>t. getitem env r (- k) = Inr t \<longrightarrow>
              fst t = - k + 1 \<and>
              fst (snd t) = poses r ! nat (len r - k) \<and>
              fst (snd (snd t)) = quats r ! nat (len r - k)) \<and>
         (images env (depth_images r ! nat (len r - k)) \<noteq> None \<and>
          images env (rgb_images r ! nat (len r - k)) \<noteq> None
            \<longrightarrow> (\<exists>t. getitem env r (- k) = Inr t))"
proof (intro conjI allI impI)
  show "getitem env r (- k) \<noteq> Inl IndexError"
    using assms by (intro getitem_not_IndexError) auto
next
  fix t assume t: "getitem env r (- k) = Inr t"
  show "fst t = - k + 1" using t by (rule getitem_Inr_fst)
  have n: "- int (length (poses r)) \<le> - k" "- int (length (quats r)) \<le> - k" "- k < 0"
    using assms by (auto simp: reader_inv_def len_def)
  have p: "subscript (poses r) (- k) = Inr (poses r ! nat (len r - k))"
    using subscript_negative[OF n(1) n(3)] assms(1) by (simp add: reader_inv_def len_def)
  have q: "subscript (quats r) (- k) = Inr (quats r ! nat (len r - k))"
    using subscript_negative[OF n(2) n(3)] assms(1) by (simp add: reader_inv_def len_def)
  show "fst (snd t) = poses r ! nat (len r - k)"
    using t p q unfolding getitem_def by (auto split: if_splits sum.splits)
  show "fst (snd (snd t)) = quats r ! nat (len r - k)"
    using t p q unfolding getitem_def by (auto split: if_splits sum.splits)
next
  assume "images env (depth_images r ! nat (len r - k)) \<noteq> None \<and>
          images env (rgb_images r ! nat (len r - k)) \<noteq> None"
  then obtain dimg cimg where "images env (depth_images r ! nat (len r + - k)) = Some dimg"
    "images env (rgb_images r ! nat (len r + - k)) = Some cimg" by auto
  from getitem_negative[OF assms(1) _ _ this] assms(2,3)
  show "\<exists>t. getitem env r (- k) = Inr t" by auto
qed

theorem getitem_negative_index_witness:
  "reader_inv ex_reader \<and> (1::int) \<le> 2 \<and> 2 \<le> len ex_reader \<and>
   getitem ex_env ex_reader (- 2) = Inr (- 1, [1, 2, 3], [0, 0, 0, 1], [[2]], [[(7, 8, 9)]]) \<and>
   - 1 = - (2::int) + 1 \<and> [1, 2, 3] = poses ex_reader ! nat (len ex_reader - 2) \<and>
   [0, 0, 0, 1] = quats ex_reader ! nat (len ex_reader - 2)"
proof -
  have k: "2 \<le> len ex_reader" by (simp add: ex_len)
  have g: "getitem ex_env ex_reader (- 2) = Inr (- 1, [1, 2, 3], [0, 0, 0, 1], [[2]], [[(7, 8, 9)]])"
    by (simp add: getitem_def len_def subscript_def image_open_def ex_simps)
  show ?thesis
    using getitem_negative_index[OF ex_reader_inv _ k, of ex_env] g ex_reader_inv k by simp
qed

subsection \<open>Depth scaling\<close>

text \<open>
  Claim C7. At a valid index \<open>i\<close> of a constructed reader, the depth map of
  \<open>get(i)\<close> has the shape of the stored raster, and each of its pixels is the raw
  value \<open>v\<close> converted to \<open>float32\<close> and divided by the divisor given at
  construction, 5000 when none was given.
\<close>

theorem depth_scaled_per_pixel:
  assumes "TUMReader env dir mn mx sc = Inr r" "0 \<le> i" "i < len r"
    and "images env (depth_images r ! nat i) = Some img"
    and "getitem env r i = Inr (k, t, q, d, c)"
  shows "depth_scaling r = (case sc of None \<Rightarrow> 5000 | Some v \<Rightarrow> v) \<and>
         length d = length (raster img) \<and>
         (\<forall>y < length (raster img).
            length (d ! y) = length (raster img ! y) \<and>
            (\<forall>x < length (raster img ! y).
               d ! y ! x = true_divide env (float32 env (of_nat (raster img ! y ! x))) (depth_scaling r)))"
proof -
  have inv: "reader_inv r" using assms(1) by (rule TUMReader_inv)
  have sc: "depth_scaling r = (case sc of None \<Rightarrow> 5000 | Some v \<Rightarrow> v)"
    using assms(1) unfolding TUMReader_def by (auto split: sum.splits prod.splits)
  have dp: "subscript (depth_images r) i = Inr (depth_images r ! nat i)"
    using inv assms(2,3) by (intro subscript_valid) (auto simp: reader_inv_def len_def)
  have d: "d = map (map (\<lambda>v. true_divide env (float32 env (of_nat v)) (depth_scaling r))) (raster img)"
    using assms(4,5) dp unfolding getitem_def image_open_def
    by (auto split: if_splits sum.splits option.splits)
  show ?thesis using sc d by simp
qed

theorem depth_scaled_per_pixel_witness:
  "TUMReader ex_env ex_dir None None None = Inr ex_reader \<and> (0::int) \<le> 0 \<and> 0 < len ex_reader \<and>
   images ex_env (depth_images ex_reader ! nat 0) = Some \<lparr>raster = [[10000]], rgb_raster = [[(255, 255, 255)]]\<rparr> \<and>
   getitem ex_env ex_reader 0 = Inr (1, [1, 2, 3], [0, 0, 0, 1], [[2]], [[(7, 8, 9)]]) \<and>
   depth_scaling ex_reader = 5000 \<and> [[2 :: rat]] ! 0 ! 0 = 10000 / 5000"
proof -
  have l: "0 < len ex_reader" by (simp add: ex_len)
  have im: "images ex_env (depth_images ex_reader ! nat 0) = Some \<lparr>raster = [[10000]], rgb_raster = [[(255, 255, 255)]]\<rparr>"
    by (simp add: ex_simps)
  show ?thesis
    using depth_scaled_per_pixel[OF ex_reader_constructed _ l im ex_get0] ex_reader_constructed l im ex_get0
    by (simp add: ex_env_def)
qed

subsection \<open>The range parameters\<close>

text \<open>
  Claim C10. \<open>min_range\<close> and \<open>max_range\<close> are stored and nothing else: when a
  construction succeeds, the construction over the same directory and divisor with
  any other range values succeeds too, the two readers differ in the two stored fields
  only, and \<open>length()\<close> and \<open>get(i)\<close> agree at every index.
\<close>

theorem ranges_only_stored:
  assumes "TUMReader env dir mn1 mx1 sc = Inr r1"
  shows "\<exists>r2. TUMReader env dir mn2 mx2 sc = Inr r2 \<and>
           r2 = r1\<lparr>min_range := (case mn2 of None \<Rightarrow> 1 / 100 | Some v \<Rightarrow> v),
                    max_range := (case mx2 of None \<Rightarrow> 30 | Some v \<Rightarrow> v)\<rparr> \<and>
           len r2 = len r1 \<and> (\<forall>i. getitem env r2 i = getitem env r1 i)"
  using assms unfolding TUMReader_def
  by (auto simp: len_def getitem_def split: sum.splits prod.splits)

theorem ranges_only_stored_witness:
  "TUMReader ex_env ex_dir None None None = Inr ex_reader \<and>
   TUMReader ex_env ex_dir (Some 1) (Some 2) None = Inr (ex_reader\<lparr>min_range := 1, max_range := 2\<rparr>) \<and>
   len (ex_reader\<lparr>min_range := 1, max_range := 2\<rparr>) = len ex_reader \<and>
   getitem ex_env (ex_reader\<lparr>min_range := 1, max_range := 2\<rparr>) 1 = getitem ex_env ex_reader 1"
  using ranges_only_stored[OF ex_reader_constructed, of "Some 1" "Some 2"] ex_reader_constructed
  by auto

subsection \<open>Iteration\<close>

text \<open>
  Claim C6. When \<open>get(i)\<close> returns a tuple at every valid index of a reader with
  \<open>N\<close> matches, iterating it yields \<open>get(0), \<dots>, get(N-1)\<close> in this order and
  ends by \<open>StopIteration\<close>, a further \<open>__next__\<close> raises \<open>StopIteration\<close> again,
  and iterating the exhausted reader once more yields the same \<open>N\<close> tuples: only the
  cursor was reset.
\<close>

theorem iteration_yields_all_frames:
  assumes "\<forall>i. 0 \<le> i \<and> i < len r \<longrightarrow> getitem env r i = Inr (f i)"
  shows "collect env (iter r) =
           (map (\<lambda>i. f (int i)) [0..<nat (len r)], StopIteration, r\<lparr>file_index := len r\<rparr>) \<and>
         next_frame env (r\<lparr>file_index := len r\<rparr>) = (Inl StopIteration, r\<lparr>file_index := len r\<rparr>) \<and>
         collect env (iter (r\<lparr>file_index := len r\<rparr>)) =
           (map (\<lambda>i. f (int i)) [0..<nat (len r)], StopIteration, r\<lparr>file_index := len r\<rparr>)"
proof -
  have a: "\<forall>i. int 0 \<le> i \<and> i < len r \<longrightarrow> getitem env r i = Inr (f i)" using assms by simp
  have b: "int 0 \<le> len r" by (simp add: len_def)
  have "collect env (r\<lparr>file_index := int 0\<rparr>) =
      (map (\<lambda>i. f (int i)) [0..<nat (len r)], StopIteration, r\<lparr>file_index := len r\<rparr>)"
    by (rule collect_from[OF a b])
  then have c: "collect env (iter r) =
      (map (\<lambda>i. f (int i)) [0..<nat (len r)], StopIteration, r\<lparr>file_index := len r\<rparr>)"
    by (simp add: iter_def)
  have d: "iter (r\<lparr>file_index := len r\<rparr>) = iter r" by (simp add: iter_def)
  have e: "next_frame env (r\<lparr>file_index := len r\<rparr>) = (Inl StopIteration, r\<lparr>file_index := len r\<rparr>)"
    by (simp add: next_frame_def len_file_index)
  show ?thesis using c d e by simp
qed

theorem iteration_yields_all_frames_witness:
  "len ex_reader = 2 \<and>
   getitem ex_env ex_reader 0 = Inr (ex_frames 0) \<and>
   getitem ex_env ex_reader 1 = Inr (ex_frames 1) \<and>
   collect ex_env (iter ex_reader) =
     ([(1, [1, 2, 3], [0, 0, 0, 1], [[2]], [[(7, 8, 9)]]),
       (2, [4, 5, 6], [0, 0, 1, 0], [[1]], [[(1, 2, 3)]])],
      StopIteration, ex_reader\<lparr>file_index := 2\<rparr>) \<and>
   collect ex_env (iter (ex_reader\<lparr>file_index := 2\<rparr>)) =
     ([(1, [1, 2, 3], [0, 0, 0, 1], [[2]], [[(7, 8, 9)]]),
       (2, [4, 5, 6], [0, 0, 1, 0], [[1]], [[(1, 2, 3)]])],
      StopIteration, ex_reader\<lparr>file_index := 2\<rparr>)"
proof -
  have h: "\<forall>i. 0 \<le> i \<and> i < len ex_reader \<longrightarrow> getitem ex_env ex_reader i = Inr (ex_frames i)"
  proof (intro allI impI)
    fix i :: int assume "0 \<le> i \<and> i < len ex_reader"
    then have "i = 0 \<or> i = 1" by (auto simp: ex_len)
    then show "getitem ex_env ex_reader i = Inr (ex_frames i)"
      by (auto simp: ex_get0 ex_get1 ex_frames_def)
  qed
  have u: "[0..<2::nat] = [0, 1]" by code_simp
  show ?thesis
    using iteration_yields_all_frames[OF h] ex_get0 ex_get1
    by (simp add: ex_len u ex_frames_def)
qed

subsection \<open>Association\<close>





subsection \<open>Pose parsing\<close>

text \<open>
  Claim C8. The pose loop converts the tokens 0 to 6 of every match, in this order, and
  no other token: when every match has its seven leading numeric fields, the result is
  the list of translations (tokens 0, 1, 2) and the list of orientations (tokens 3 to 6),
  each value passed through \<open>float32\<close>. At the first match that lacks them the loop
  fails: with \<open>ValueError\<close> when one of its first seven tokens is not a number,
  otherwise (fewer than seven tokens) with \<open>IndexError\<close>.
\<close>

theorem pose_fields_parsed:
  "((\<forall>m \<in> set ms. seven_numeric (pyfloat env) (pose m)) \<longrightarrow>
      parse_poses env ms =
        Inr (map (\<lambda>m. map (\<lambda>k. float32 env (the (pyfloat env (pose m ! k)))) [0, 1, 2]) ms,
             map (\<lambda>m. map (\<lambda>k. float32 env (the (pyfloat env (pose m ! k)))) [3, 4, 5, 6]) ms)) \<and>
   ((\<forall>m \<in> set good. seven_numeric (pyfloat env) (pose m)) \<and> \<not> seven_numeric (pyfloat env) (pose bad) \<longrightarrow>
      parse_poses env (good @ bad # rest) =
        Inl (if \<exists>k < 7. k < length (pose bad) \<and> pyfloat env (pose bad ! k) = None
             then ValueError else IndexError))"
proof (intro conjI impI)
  assume "\<forall>m \<in> set ms. seven_numeric (pyfloat env) (pose m)"
  then show "parse_poses env ms =
        Inr (map (\<lambda>m. map (\<lambda>k. float32 env (the (pyfloat env (pose m ! k)))) [0, 1, 2]) ms,
             map (\<lambda>m. map (\<lambda>k. float32 env (the (pyfloat env (pose m ! k)))) [3, 4, 5, 6]) ms)"
  proof (induction ms)
    case Nil
    then show ?case by simp
  next
    case (Cons m ms)
    then have m: "seven_numeric (pyfloat env) (pose m)" by simp
    show ?case using Cons by (simp add: parse_poses_Cons_ok[OF m] del: parse_poses.simps)
  qed
next
  assume a: "(\<forall>m \<in> set good. seven_numeric (pyfloat env) (pose m)) \<and>
             \<not> seven_numeric (pyfloat env) (pose bad)"
  then show "parse_poses env (good @ bad # rest) =
        Inl (if \<exists>k < 7. k < length (pose bad) \<and> pyfloat env (pose bad ! k) = None
             then ValueError else IndexError)"
  proof (induction good)
    case Nil
    then show ?case by (simp add: parse_poses_Cons_bad del: parse_poses.simps)
  next
    case (Cons m good)
    then have m: "seven_numeric (pyfloat env) (pose m)" by simp
    show ?case using Cons by (simp add: parse_poses_Cons_ok[OF m] del: parse_poses.simps)
  qed
qed

theorem pose_fields_parsed_witness:
  "parse_poses ex_env [ex_pose_extra] = Inr ([[1, 2, 3]], [[0, 0, 0, 1]]) \<and>
   parse_poses ex_env [ex_pose_extra, ex_pose_short, ex_pose_word] = Inl IndexError \<and>
   parse_poses ex_env [ex_pose_extra, ex_pose_word, ex_pose_short] = Inl ValueError"
proof -
  have g: "\<forall>m \<in> set [ex_pose_extra]. seven_numeric (pyfloat ex_env) (pose m)"
    by (simp add: ex_seven_numeric)
  have a: "parse_poses ex_env [ex_pose_extra] = Inr ([[1, 2, 3]], [[0, 0, 0, 1]])"
    using pose_fields_parsed[of "[ex_pose_extra]" ex_env "[]" ex_pose_short "[]"] g
    by (simp add: ex_simps ex_pose_extra_def del: parse_poses.simps)
  have sw: "\<not> (\<exists>k < 7. k < length (pose ex_pose_short) \<and> pyfloat ex_env (pose ex_pose_short ! k) = None)"
    using all_less_7[of "\<lambda>k. \<not> (k < length (pose ex_pose_short) \<and> pyfloat ex_env (pose ex_pose_short ! k) = None)"]
    by (simp add: ex_simps ex_pose_short_def)
  have ww: "\<exists>k < 7. k < length (pose ex_pose_word) \<and> pyfloat ex_env (pose ex_pose_word ! k) = None"
    by (rule exI[of _ 1]) (simp add: ex_simps ex_pose_word_def)
  have b: "parse_poses ex_env ([ex_pose_extra] @ ex_pose_short # [ex_pose_word]) = Inl IndexError"
    using pose_fields_parsed[of "[]" ex_env "[ex_pose_extra]" ex_pose_short "[ex_pose_word]"] g
      ex_seven_numeric(2) sw
    by (simp del: parse_poses.simps)
  have c: "parse_poses ex_env ([ex_pose_extra] @ ex_pose_word # [ex_pose_short]) = Inl ValueError"
    using pose_fields_parsed[of "[]" ex_env "[ex_pose_extra]" ex_pose_word "[ex_pose_short]"] g
      ex_seven_numeric(3) ww
    by (simp del: parse_poses.simps)
  show ?thesis using a b c by simp
qed

subsection \<open>The list files\<close>

text \<open>
  Claim C9, as the code has it. The pose list is \<open>groundtruth.txt\<close> when that file
  exists, and then \<open>poses.txt\<close> has no influence on the reader; otherwise it is
  \<open>poses.txt\<close>. The three list files are opened and parsed one after the other:
  construction fails with \<open>FileNotFoundError\<close> when \<open>rgb.txt\<close> is absent, when
  \<open>rgb.txt\<close> parses and \<open>depth.txt\<close> is absent, and when both parse and the pose
  list is absent.
\<close>

theorem list_files_resolution:
  "(exists env (Slash dir ''groundtruth.txt'') \<longrightarrow>
      pose_file env dir = Slash dir ''groundtruth.txt'' \<and>
      (\<forall>other. TUMReader (env\<lparr>files := (files env)(Slash dir ''poses.txt'' := other)\<rparr>) dir mn mx sc =
               TUMReader env dir mn mx sc)) \<and>
   (\<not> exists env (Slash dir ''groundtruth.txt'') \<longrightarrow> pose_file env dir = Slash dir ''poses.txt'') \<and>
   (files env (Slash dir ''rgb.txt'') = None \<longrightarrow> TUMReader env dir mn mx sc = Inl FileNotFoundError) \<and>
   (\<forall>rgb_list. read_file_list env (Slash dir ''rgb.txt'') = Inr rgb_list \<and>
        files env (Slash dir ''depth.txt'') = None \<longrightarrow>
        TUMReader env dir mn mx sc = Inl FileNotFoundError) \<and>
   (\<forall>rgb_list depth_list. read_file_list env (Slash dir ''rgb.txt'') = Inr rgb_list \<and>
        read_file_list env (Slash dir ''depth.txt'') = Inr depth_list \<and>
        files env (pose_file env dir) = None \<longrightarrow>
        TUMReader env dir mn mx sc = Inl FileNotFoundError)"
proof (intro conjI impI allI)
  assume gt: "exists env (Slash dir ''groundtruth.txt'')"
  then show "pose_file env dir = Slash dir ''groundtruth.txt''" by (simp add: pose_file_def)
  fix other
  let ?env = "env\<lparr>files := (files env)(Slash dir ''poses.txt'' := other)\<rparr>"
  have pf: "pose_file ?env dir = Slash dir ''groundtruth.txt''" "pose_file env dir = Slash dir ''groundtruth.txt''"
    using gt by (simp_all add: pose_file_def exists_def)
  have r: "read_file_list ?env (Slash dir ''rgb.txt'') = read_file_list env (Slash dir ''rgb.txt'')"
    "read_file_list ?env (Slash dir ''depth.txt'') = read_file_list env (Slash dir ''depth.txt'')"
    "read_file_list ?env (Slash dir ''groundtruth.txt'') = read_file_list env (Slash dir ''groundtruth.txt'')"
    by (simp_all add: read_file_list_def split: option.splits)
  have p: "parse_poses ?env ms = parse_poses env ms" for ms
    by (rule parse_poses_env) simp_all
  have "load_tum_data ?env dir = load_tum_data env dir"
    unfolding load_tum_data_def pf r p ..
  then show "TUMReader ?env dir mn mx sc = TUMReader env dir mn mx sc"
    by (simp add: TUMReader_def)
next
  assume "\<not> exists env (Slash dir ''groundtruth.txt'')"
  then show "pose_file env dir = Slash dir ''poses.txt''" by (simp add: pose_file_def)
next
  assume "files env (Slash dir ''rgb.txt'') = None"
  then show "TUMReader env dir mn mx sc = Inl FileNotFoundError"
    by (simp add: TUMReader_def load_tum_data_def read_file_list_absent)
next
  fix rgb_list
  assume "read_file_list env (Slash dir ''rgb.txt'') = Inr rgb_list \<and>
          files env (Slash dir ''depth.txt'') = None"
  then show "TUMReader env dir mn mx sc = Inl FileNotFoundError"
    by (simp add: TUMReader_def load_tum_data_def read_file_list_absent)
next
  fix rgb_list depth_list
  assume "read_file_list env (Slash dir ''rgb.txt'') = Inr rgb_list \<and>
          read_file_list env (Slash dir ''depth.txt'') = Inr depth_list \<and>
          files env (pose_file env dir) = None"
  then show "TUMReader env dir mn mx sc = Inl FileNotFoundError"
    by (simp add: TUMReader_def load_tum_data_def read_file_list_absent)
qed

theorem list_files_resolution_witness:
  "exists ex_env (Slash ex_dir ''groundtruth.txt'') \<and>
   pose_file ex_env ex_dir = Slash ex_dir ''groundtruth.txt'' \<and>
   TUMReader (ex_env\<lparr>files := (files ex_env)(Slash ex_dir ''poses.txt'' := Some [''no pose here''])\<rparr>)
     ex_dir None None None = Inr ex_reader \<and>
   files (ex_env_without ''rgb.txt'') (Slash ex_dir ''rgb.txt'') = None \<and>
   TUMReader (ex_env_without ''rgb.txt'') ex_dir None None None = Inl FileNotFoundError \<and>
   files (ex_env_without ''depth.txt'') (Slash ex_dir ''depth.txt'') = None \<and>
   TUMReader (ex_env_without ''depth.txt'') ex_dir None None None = Inl FileNotFoundError \<and>
   \<not> exists (ex_env_without ''groundtruth.txt'') (Slash ex_dir ''groundtruth.txt'') \<and>
   pose_file (ex_env_without ''groundtruth.txt'') ex_dir = Slash ex_dir ''poses.txt'' \<and>
   files (ex_env_without ''groundtruth.txt'') (Slash ex_dir ''poses.txt'') = None \<and>
   TUMReader (ex_env_without ''groundtruth.txt'') ex_dir None None None = Inl FileNotFoundError"
proof -
  have gt: "exists ex_env (Slash ex_dir ''groundtruth.txt'')"
    by (simp add: exists_def ex_simps)
  note full = list_files_resolution[of ex_env ex_dir None None None]
  from full gt have a: "pose_file ex_env ex_dir = Slash ex_dir ''groundtruth.txt''" by blast
  from full gt have "\<forall>other. TUMReader (ex_env\<lparr>files := (files ex_env)(Slash ex_dir ''poses.txt'' := other)\<rparr>)
      ex_dir None None None = TUMReader ex_env ex_dir None None None" by blast
  then have b: "TUMReader (ex_env\<lparr>files := (files ex_env)(Slash ex_dir ''poses.txt'' := Some [''no pose here''])\<rparr>)
      ex_dir None None None = Inr ex_reader"
    by (simp only: ex_reader_constructed)
  have c0: "files (ex_env_without ''rgb.txt'') (Slash ex_dir ''rgb.txt'') = None"
    by (simp add: ex_env_without_def)
  from list_files_resolution[of "ex_env_without ''rgb.txt''" ex_dir None None None] c0
  have c: "TUMReader (ex_env_without ''rgb.txt'') ex_dir None None None = Inl FileNotFoundError"
    by blast
  have d0: "files (ex_env_without ''depth.txt'') (Slash ex_dir ''depth.txt'') = None"
    by (simp add: ex_env_without_def)
  from list_files_resolution[of "ex_env_without ''depth.txt''" ex_dir None None None] d0 ex_without_reads(1)
  have d: "TUMReader (ex_env_without ''depth.txt'') ex_dir None None None = Inl FileNotFoundError"
    by blast
  have e0: "\<not> exists (ex_env_without ''groundtruth.txt'') (Slash ex_dir ''groundtruth.txt'')"
    by (simp add: exists_def ex_env_without_def)
  note nogt = list_files_resolution[of "ex_env_without ''groundtruth.txt''" ex_dir None None None]
  from nogt e0
  have e1: "pose_file (ex_env_without ''groundtruth.txt'') ex_dir = Slash ex_dir ''poses.txt''"
    by blast
  have e2: "files (ex_env_without ''groundtruth.txt'') (Slash ex_dir ''poses.txt'') = None"
    by (simp add: ex_env_without_def ex_simps)
  then have e3: "files (ex_env_without ''groundtruth.txt'') (pose_file (ex_env_without ''groundtruth.txt'') ex_dir) = None"
    by (simp only: e1)
  from nogt e3 ex_without_reads(2,3)
  have e: "TUMReader (ex_env_without ''groundtruth.txt'') ex_dir None None None = Inl FileNotFoundError"
    by blast
  from gt a b c0 c d0 d e0 e1 e2 e show ?thesis by (intro conjI)
qed

text \<open>
  Claim C9 as stated promises the file-not-found failure whenever a list file is
  absent. With \<open>depth.txt\<close> absent and a header line in \<open>rgb.txt\<close>, construction
  fails with \<open>ValueError\<close>: the colour list is parsed before \<open>depth.txt\<close> is opened.
\<close>

theorem missing_file_behind_malformed_list:
  "files ex_bad_env (Slash ex_dir ''depth.txt'') = None \<and>
   TUMReader ex_bad_env ex_dir None None None = Inl ValueError"
  by (simp add: TUMReader_def load_tum_data_def read_file_list_def ex_bad_env_def ex_simps
      startswith_hash_def str_split_def isspace_def)

end
